theory Spec2Isabelle
  imports
    Complex_Main
    "HOL-Library.Char_ord"
    "HOL-Library.List_Lexorder"
    "HOL-Library.Multiset"
begin

section \<open>Python strings and integers\<close>

text \<open>
  A Python \<open>str\<close> is modelled as a HOL \<open>string\<close>: a list of characters with code
  points below 256. The string methods the scripts call are written out per character.
  Python compares strings by code point, lexicographically; that is the order which
  \<open>Char_ord\<close> and \<open>List_Lexorder\<close> put on \<open>string\<close>.
\<close>

definition startswith :: "string \<Rightarrow> string \<Rightarrow> bool" where
  \<comment> \<open>\<open>s.startswith(p)\<close>\<close>
  "startswith s p = (take (length p) s = p)"

definition lower_char :: "char \<Rightarrow> char" where
  \<comment> \<open>\<open>str.lower\<close> on one code point below 256: A-Z, and the upper-case letters
      0xC0-0xDE without the multiplication sign 0xD7, move up by 32\<close>
  "lower_char c =
     (let n = (of_char c :: nat)
      in if (65 \<le> n \<and> n \<le> 90) \<or> (192 \<le> n \<and> n \<le> 222 \<and> n \<noteq> 215)
         then char_of (n + 32) else c)"

definition lower :: "string \<Rightarrow> string" where
  "lower s = map lower_char s"

definition lstrip_zeros :: "string \<Rightarrow> string" where
  \<comment> \<open>\<open>s.lstrip("0")\<close>\<close>
  "lstrip_zeros s = dropWhile (\<lambda>c. c = CHR ''0'') s"



definition int_isspace :: "char \<Rightarrow> bool" where
  \<comment> \<open>the code points below 256 that \<open>int(s)\<close> accepts around the number: the six
      ASCII blanks, and the two blanks above 127 (which it first turns into a space)\<close>
  "int_isspace c = ((of_char c :: nat) \<in> {9, 10, 11, 12, 13, 32, 133, 160})"

definition digit_val :: "char \<Rightarrow> nat option" where
  \<comment> \<open>the value of a digit character in bases up to 36\<close>
  "digit_val c =
     (let n = (of_char c :: nat)
      in if 48 \<le> n \<and> n \<le> 57 then Some (n - 48)
         else if 97 \<le> n \<and> n \<le> 122 then Some (n - 87)
         else if 65 \<le> n \<and> n \<le> 90 then Some (n - 55)
         else None)"

fun digits_value :: "nat \<Rightarrow> string \<Rightarrow> nat \<Rightarrow> nat option" where
  \<comment> \<open>the digit scan of \<open>int(s, base)\<close>: digits below the base, single underscores
      allowed between digits only\<close>
  "digits_value b [] acc = Some acc"
| "digits_value b (c # cs) acc =
     (if c = CHR ''_''
      then (case cs of
              [] \<Rightarrow> None
            | d # _ \<Rightarrow> if d = CHR ''_'' then None else digits_value b cs acc)
      else (case digit_val c of
              None \<Rightarrow> None
            | Some v \<Rightarrow> if v < b then digits_value b cs (acc * b + v) else None))"

definition py_int :: "nat \<Rightarrow> string \<Rightarrow> int option" where
  \<comment> \<open>\<open>int(s, base)\<close> for base 10 and base 16; \<open>None\<close> is \<open>ValueError\<close>.
      Blanks around the number, one optional sign, for base 16 an optional
      \<open>0x\<close>/\<open>0X\<close> that may be followed by one underscore, then the digits.
      (The interpreter's configurable limit on the length of decimal literals is
      taken to be switched off.)\<close>
  "py_int b s =
     (let t = rev (dropWhile int_isspace (rev (dropWhile int_isspace s)));
          neg = (t \<noteq> [] \<and> hd t = CHR ''-'');
          u = (if t \<noteq> [] \<and> (hd t = CHR ''-'' \<or> hd t = CHR ''+'') then tl t else t);
          v = (if b = 16 \<and> startswith u ''0x'' \<or> b = 16 \<and> startswith u ''0X''
               then (if startswith (drop 2 u) ''_'' then drop 3 u else drop 2 u)
               else u)
      in if v = [] \<or> hd v = CHR ''_'' then None
         else (case digits_value b v 0 of
                 None \<Rightarrow> None
               | Some n \<Rightarrow> Some (if neg then - int n else int n)))"

definition hex_digit :: "nat \<Rightarrow> char" where
  "hex_digit d = (if d < 10 then char_of (48 + d) else char_of (87 + d))"

fun hex_nat :: "nat \<Rightarrow> string" where
  "hex_nat n = (if n < 16 then [hex_digit n] else hex_nat (n div 16) @ [hex_digit (n mod 16)])"

declare hex_nat.simps [simp del]

definition hex :: "int \<Rightarrow> string" where
  \<comment> \<open>the builtin \<open>hex\<close>\<close>
  "hex n = (if n < 0 then ''-0x'' @ hex_nat (nat (- n)) else ''0x'' @ hex_nat (nat n))"

section \<open>Address canonicalisation\<close>

text \<open>
  Lines 113-123 of \<open>scrape_holders.py\<close>, applied to an owner address that is a
  string: prefix, lower case and, on Starknet, no zero padding.
\<close>

definition canonicalize :: "string \<Rightarrow> string \<Rightarrow> string" where
  "canonicalize network owner_address =
     (let a1 = (if \<not> startswith owner_address ''0x'' then ''0x'' @ owner_address
                else owner_address);
          a2 = lower a1
      in if lower network = ''starknet''
         then (let a3 = ''0x'' @ lstrip_zeros (drop 2 a2)
               in if a3 = ''0x'' then ''0x0'' else a3)
         else a2)"

section \<open>JSON values and the Python operations on them\<close>

text \<open>
  What \<open>response.json()\<close> returns: \<open>None\<close>, a \<open>bool\<close>, an \<open>int\<close>, a \<open>float\<close>
  (finite, idealised as a rational), a \<open>str\<close>, a \<open>list\<close> or a \<open>dict\<close>. A
  \<open>JObj\<close> lists the entries of a dict in insertion order, with distinct keys.
\<close>

datatype json =
    JNull
  | JBool bool
  | JInt int
  | JFloat rat
  | JStr string
  | JArr "json list"
  | JObj "(string \<times> json) list"

datatype py_error = TypeError | ValueError | AttributeError | KeyError

fun truthy :: "json \<Rightarrow> bool" where
  \<comment> \<open>the truth value Python gives an object in \<open>if x\<close>, \<open>x and y\<close>, \<open>not x\<close>\<close>
  "truthy JNull = False"
| "truthy (JBool b) = b"
| "truthy (JInt n) = (n \<noteq> 0)"
| "truthy (JFloat r) = (r \<noteq> 0)"
| "truthy (JStr s) = (s \<noteq> [])"
| "truthy (JArr xs) = (xs \<noteq> [])"
| "truthy (JObj kvs) = (kvs \<noteq> [])"

fun substring :: "string \<Rightarrow> string \<Rightarrow> bool" where
  \<comment> \<open>\<open>p in s\<close> for two strings\<close>
  "substring p [] = (p = [])"
| "substring p (c # cs) = (startswith (c # cs) p \<or> substring p cs)"

fun py_in :: "string \<Rightarrow> json \<Rightarrow> py_error + bool" where
  \<comment> \<open>\<open>key in x\<close> for a string \<open>key\<close>: a key of a dict, an element of a list, a
      substring of a string; \<open>TypeError\<close> on anything else\<close>
  "py_in k (JObj kvs) = Inr (k \<in> set (map fst kvs))"
| "py_in k (JArr xs) = Inr (JStr k \<in> set xs)"
| "py_in k (JStr s) = Inr (substring k s)"
| "py_in k _ = Inl TypeError"

fun py_getitem :: "json \<Rightarrow> string \<Rightarrow> py_error + json" where
  \<comment> \<open>\<open>x[key]\<close> for a string \<open>key\<close>\<close>
  "py_getitem (JObj kvs) k = (case map_of kvs k of None \<Rightarrow> Inl KeyError | Some v \<Rightarrow> Inr v)"
| "py_getitem _ k = Inl TypeError"

fun py_get :: "json \<Rightarrow> string \<Rightarrow> json \<Rightarrow> py_error + json" where
  \<comment> \<open>\<open>x.get(key, default)\<close>: only a dict has the method\<close>
  "py_get (JObj kvs) k d = Inr (case map_of kvs k of None \<Rightarrow> d | Some v \<Rightarrow> v)"
| "py_get _ k d = Inl AttributeError"

fun py_iter :: "json \<Rightarrow> py_error + json list" where
  \<comment> \<open>the items \<open>for item in x\<close> runs through: the elements of a list, the keys of
      a dict, the characters of a string\<close>
  "py_iter (JArr xs) = Inr xs"
| "py_iter (JObj kvs) = Inr (map (\<lambda>kv. JStr (fst kv)) kvs)"
| "py_iter (JStr s) = Inr (map (\<lambda>c. JStr [c]) s)"
| "py_iter _ = Inl TypeError"

fun hashable :: "json \<Rightarrow> bool" where
  "hashable (JArr xs) = False"
| "hashable (JObj kvs) = False"
| "hashable _ = True"

section \<open>The holder scraper (\<open>scrape_holders.py\<close>)\<close>

text \<open>
  \<open>holders_tokens\<close> is a \<open>defaultdict(set)\<close>. The dict is an association list in
  insertion order with distinct keys; each set is a list without duplicates (the order
  in which Python iterates over a set is not determined by the program, and the list
  fixes one).
\<close>

type_synonym holders = "(string \<times> json list) list"

definition owner_aliases :: "string list" where
  "owner_aliases = [''ownerAddress'', ''owner_address'', ''owner'']"

definition token_aliases :: "string list" where
  "token_aliases = [''tokenId'', ''token_id'', ''id'']"

fun lookup_alias :: "string list \<Rightarrow> json \<Rightarrow> py_error + json" where
  \<comment> \<open>the chain \<open>if k1 in nft: v = nft[k1] elif k2 in nft: ...\<close> after \<open>v = None\<close>\<close>
  "lookup_alias [] nft = Inr JNull"
| "lookup_alias (k # ks) nft =
     (case py_in k nft of
        Inl e \<Rightarrow> Inl e
      | Inr True \<Rightarrow> py_getitem nft k
      | Inr False \<Rightarrow> lookup_alias ks nft)"

fun token_id_hex :: "json \<Rightarrow> py_error + json" where
  \<comment> \<open>lines 126-131: an \<open>int\<close> (a \<open>bool\<close> is one) through \<open>hex\<close>, a string without
      the \<open>0x\<close> prefix through \<open>hex(int(s))\<close>, anything else as it is\<close>
  "token_id_hex (JInt n) = Inr (JStr (hex n))"
| "token_id_hex (JBool b) = Inr (JStr (hex (if b then 1 else 0)))"
| "token_id_hex (JStr s) =
     (if \<not> startswith s ''0x''
      then (case py_int 10 s of None \<Rightarrow> Inl ValueError | Some n \<Rightarrow> Inr (JStr (hex n)))
      else Inr (JStr s))"
| "token_id_hex t = Inr t"

definition add_token :: "string \<Rightarrow> json \<Rightarrow> holders \<Rightarrow> holders \<times> py_error option" where
  \<comment> \<open>\<open>holders_tokens[owner_address].add(token_id_hex)\<close>: the subscript creates the
      entry of a new owner before \<open>add\<close> runs, and \<open>add\<close> raises on an unhashable
      object\<close>
  "add_token a t hm =
     (let hm1 = (if a \<in> set (map fst hm) then hm else hm @ [(a, [])])
      in if hashable t
         then (map (\<lambda>(k, ts). if k = a then (k, if t \<in> set ts then ts else ts @ [t])
                                else (k, ts)) hm1, None)
         else (hm1, Some TypeError))"

definition process_nft :: "string \<Rightarrow> json \<Rightarrow> holders \<Rightarrow> holders \<times> py_error option" where
  \<comment> \<open>the body of \<open>for nft in nfts\<close>, lines 93-133; the second component is the
      exception that leaves the loop, if one is raised\<close>
  "process_nft network nft hm =
     (case lookup_alias owner_aliases nft of
        Inl e \<Rightarrow> (hm, Some e)
      | Inr owner_address \<Rightarrow>
     (case lookup_alias token_aliases nft of
        Inl e \<Rightarrow> (hm, Some e)
      | Inr token_id \<Rightarrow>
          if truthy owner_address \<and> truthy token_id
          then (case owner_address of
                  JStr a \<Rightarrow>
                    (case token_id_hex token_id of
                       Inl e \<Rightarrow> (hm, Some e)
                     | Inr t \<Rightarrow> add_token (canonicalize network a) t hm)
                | _ \<Rightarrow> (hm, Some AttributeError))
          else (hm, None)))"

text \<open>
  The two scrapers share the text of their loop: \<open>while True\<close> around a \<open>try\<close>
  block that reads one page, runs a \<open>for\<close> loop over its records, and looks for the
  next page key. The loop is written once, over the state \<open>'s\<close> that the records are
  collected in and the body \<open>step\<close> of the \<open>for\<close> loop.

  The request is \<open>fetch\<close>, a function of the number of pages read so far and of the
  page key (\<open>JNull\<close> before the first page); the contract address, the page size and
  the token-id range are the same in every request of a run and are part of \<open>fetch\<close>,
  and so is the pause between two requests. A request that raises (\<open>requests.get\<close>,
  \<open>raise_for_status\<close>, \<open>response.json\<close>) is \<open>RequestException\<close>. Every
  exception raised in the \<open>try\<close> block ends the loop with the state reached so far.
\<close>

datatype response = RequestException | Response json

datatype 's page_step = Break 's | Continue 's json

fun for_each :: "(json \<Rightarrow> 's \<Rightarrow> 's \<times> py_error option) \<Rightarrow> json list \<Rightarrow> 's \<Rightarrow> 's \<times> py_error option"
where
  \<comment> \<open>\<open>for nft in nfts\<close>: an exception leaves the loop with the state reached\<close>
  "for_each step [] st = (st, None)"
| "for_each step (nft # nfts) st =
     (case step nft st of
        (st', Some e) \<Rightarrow> (st', Some e)
      | (st', None) \<Rightarrow> for_each step nfts st')"

definition unwrap :: "json \<Rightarrow> py_error + json" where
  \<comment> \<open>\<open>data\<close> of a wrapped or an unwrapped response\<close>
  "unwrap result =
     (case py_in ''result'' result of
        Inl e \<Rightarrow> Inl e
      | Inr True \<Rightarrow> py_get result ''result'' (JObj [])
      | Inr False \<Rightarrow> Inr result)"

definition read_page :: "(json \<Rightarrow> 's \<Rightarrow> 's \<times> py_error option) \<Rightarrow> json \<Rightarrow> 's \<Rightarrow> 's page_step" where
  \<comment> \<open>the \<open>try\<close> block after \<open>result = response.json()\<close>\<close>
  "read_page step result st =
     (case py_in ''error'' result of
        Inl e \<Rightarrow> Break st
      | Inr True \<Rightarrow> Break st
      | Inr False \<Rightarrow>
     (case unwrap result of
        Inl e \<Rightarrow> Break st
      | Inr data \<Rightarrow>
     (case py_get data ''nfts'' (JArr []) of
        Inl e \<Rightarrow> Break st
      | Inr nfts \<Rightarrow>
     (case py_iter nfts of
        Inl e \<Rightarrow> Break st
      | Inr items \<Rightarrow>
     (case for_each step items st of
        (st', Some e) \<Rightarrow> Break st'
      | (st', None) \<Rightarrow>
     (case py_get data ''nextPageKey'' JNull of
        Inl e \<Rightarrow> Break st'
      | Inr next_page_key \<Rightarrow>
          if \<not> truthy next_page_key \<or> length items = 0 then Break st'
          else Continue st' next_page_key))))))"

fun collect ::
  "nat \<Rightarrow> (nat \<Rightarrow> json \<Rightarrow> response) \<Rightarrow> (json \<Rightarrow> 's \<Rightarrow> 's \<times> py_error option) \<Rightarrow> nat \<Rightarrow> json \<Rightarrow> 's
     \<Rightarrow> 's option"
where
  \<comment> \<open>\<open>while True\<close> with fuel: \<open>None\<close> when the fuel runs out before the loop ends\<close>
  "collect 0 fetch step page_count page_key st = None"
| "collect (Suc fuel) fetch step page_count page_key st =
     (case fetch page_count page_key of
        RequestException \<Rightarrow> Some st
      | Response result \<Rightarrow>
          (case read_page step result st of
             Break st' \<Rightarrow> Some st'
           | Continue st' next_page_key \<Rightarrow>
               collect fuel fetch step (page_count + 1) next_page_key st'))"

definition process_nfts :: "string \<Rightarrow> json list \<Rightarrow> holders \<Rightarrow> holders \<times> py_error option" where
  \<comment> \<open>the holder aggregation: the \<open>for\<close> loop of the holder scraper over a sequence
      of records\<close>
  "process_nfts network nfts hm = for_each (process_nft network) nfts hm"

text \<open>Lines 158-186: the snapshot document.\<close>

fun int16 :: "json \<Rightarrow> py_error + int" where
  \<comment> \<open>\<open>int(x, 16)\<close>, the sort key\<close>
  "int16 (JStr s) = (case py_int 16 s of None \<Rightarrow> Inl ValueError | Some n \<Rightarrow> Inr n)"
| "int16 _ = Inl TypeError"

fun int16_keys :: "json list \<Rightarrow> py_error + int list" where
  "int16_keys [] = Inr []"
| "int16_keys (t # ts) =
     (case int16 t of
        Inl e \<Rightarrow> Inl e
      | Inr k \<Rightarrow> (case int16_keys ts of Inl e \<Rightarrow> Inl e | Inr ks \<Rightarrow> Inr (k # ks)))"

definition sorted_token_ids :: "json list \<Rightarrow> py_error + json list" where
  \<comment> \<open>\<open>sorted(list(token_ids), key=lambda x: int(x, 16))\<close>: the keys are computed
      first, then the list is sorted by them (a stable sort)\<close>
  "sorted_token_ids ts =
     (case int16_keys ts of
        Inl e \<Rightarrow> Inl e
      | Inr ks \<Rightarrow> Inr (map snd (sort_key fst (zip ks ts))))"

fun snapshot_entries :: "holders \<Rightarrow> py_error + holders" where
  "snapshot_entries [] = Inr []"
| "snapshot_entries ((address, token_ids) # rest) =
     (case sorted_token_ids token_ids of
        Inl e \<Rightarrow> Inl e
      | Inr sorted_ids \<Rightarrow>
          (case snapshot_entries rest of
             Inl e \<Rightarrow> Inl e
           | Inr entries \<Rightarrow> Inr ((address, sorted_ids) # entries)))"

definition snapshot_data :: "holders \<Rightarrow> py_error + holders" where
  \<comment> \<open>\<open>sorted(holders_tokens.items())\<close> orders the items by their keys: the keys of a
      dict are distinct, so no comparison reaches the sets\<close>
  "snapshot_data hm = snapshot_entries (sort_key fst hm)"

definition chain_id_map :: "string \<Rightarrow> string option" where
  "chain_id_map =
     map_of [(''ethereum'', ''0x1''), (''starknet'', ''0x534e5f4d41494e''),
             (''base'', ''0x2105''), (''arbitrum'', ''0xa4b1'')]"

text \<open>
  The document without its \<open>network\<close> field (\<open>network.capitalize()\<close>, a label that
  nothing below reads).
\<close>

record snapshot_document =
  block_height :: int
  chain_id :: string
  claim_contract :: string
  contract_address :: string
  description :: string
  entrypoint :: string
  name :: string
  snapshot :: holders

definition get_collection_holders ::
  "nat \<Rightarrow> (nat \<Rightarrow> json \<Rightarrow> response) \<Rightarrow> string \<Rightarrow> string \<Rightarrow> string \<Rightarrow> string \<Rightarrow> int option
     \<Rightarrow> (py_error + snapshot_document) option"
where
  \<comment> \<open>\<open>None\<close>: the loop has not ended within the fuel; \<open>Some (Inl e)\<close>: the exception
      \<open>e\<close> leaves the function (the conversion is outside the \<open>try\<close> block)\<close>
  "get_collection_holders fuel fetch contract network collection_name descr height =
     (case collect fuel fetch (process_nft network) 0 JNull [] of
        None \<Rightarrow> None
      | Some hm \<Rightarrow>
          Some (case snapshot_data hm of
                  Inl e \<Rightarrow> Inl e
                | Inr entries \<Rightarrow>
                    Inr \<lparr> block_height = (case height of None \<Rightarrow> 0 | Some h \<Rightarrow> h),
                          chain_id = (case chain_id_map (lower network) of
                                        None \<Rightarrow> ''0x1'' | Some c \<Rightarrow> c),
                          claim_contract = ''0x1'',
                          contract_address = lower contract,
                          description = descr,
                          entrypoint = ''claim_from_forwarder'',
                          name = collection_name,
                          snapshot = entries \<rparr>))"

datatype outcome =
    SavedSnapshot string snapshot_document
  | SavedTokenIds string string "int list"
  | Exit nat
  | Uncaught py_error

fun exit_status :: "outcome \<Rightarrow> nat" where
  \<comment> \<open>\<open>main\<close> returns: 0; \<open>sys.exit(n)\<close>: n; an exception nobody catches: 1\<close>
  "exit_status (SavedSnapshot path doc) = 0"
| "exit_status (SavedTokenIds path fmt ids) = 0"
| "exit_status (Exit n) = n"
| "exit_status (Uncaught e) = 1"

fun writes_file :: "outcome \<Rightarrow> bool" where
  "writes_file (SavedSnapshot path doc) = True"
| "writes_file (SavedTokenIds path fmt ids) = True"
| "writes_file _ = False"

record holder_args =
  arg_contract_address :: string
  arg_name :: string
  arg_network :: string
  arg_output :: "string option"
  arg_description :: "string option"
  arg_block_height :: "int option"

definition output_path :: "holder_args \<Rightarrow> string" where
  \<comment> \<open>lines 262-264: the default file name when \<open>--output\<close> is missing or empty\<close>
  "output_path args =
     (let name_snake = map (\<lambda>c. if c = CHR '' '' then CHR ''_'' else c) (lower (arg_name args));
          default = name_snake @ ''_snapshot_'' @ arg_network args @ ''.json''
      in case arg_output args of
           None \<Rightarrow> default
         | Some p \<Rightarrow> if p = [] then default else p)"

definition snapshot_description :: "holder_args \<Rightarrow> string" where
  \<comment> \<open>lines 267-268\<close>
  "snapshot_description args =
     (case arg_description args of
        None \<Rightarrow> arg_name args @ '' snapshot''
      | Some d \<Rightarrow> if d = [] then arg_name args @ '' snapshot'' else d)"

definition main_holders :: "nat \<Rightarrow> (nat \<Rightarrow> json \<Rightarrow> response) \<Rightarrow> holder_args \<Rightarrow> outcome option" where
  \<comment> \<open>\<open>main\<close> of the holder scraper after the arguments are parsed; writing the file
      is the outcome \<open>SavedSnapshot\<close>, an exception that leaves
      \<open>get_collection_holders\<close> is caught by nobody\<close>
  "main_holders fuel fetch args =
     (case get_collection_holders fuel fetch (arg_contract_address args) (arg_network args)
             (arg_name args) (snapshot_description args) (arg_block_height args) of
        None \<Rightarrow> None
      | Some (Inl e) \<Rightarrow> Some (Uncaught e)
      | Some (Inr doc) \<Rightarrow>
          Some (if snapshot doc \<noteq> [] then SavedSnapshot (output_path args) doc else Exit 1))"

section \<open>The token-id scraper (\<open>scrape_token_ids.py\<close>)\<close>

definition truncate :: "rat \<Rightarrow> int" where
  \<comment> \<open>\<open>int(x)\<close> of a finite float: towards zero\<close>
  "truncate r = (if 0 \<le> r then \<lfloor>r\<rfloor> else \<lceil>r\<rceil>)"

fun to_internal :: "json \<Rightarrow> py_error + int" where
  \<comment> \<open>lines 96-102, for a token id that is not \<open>None\<close>\<close>
  "to_internal (JStr s) =
     (if startswith s ''0x''
      then (case py_int 16 s of None \<Rightarrow> Inl ValueError | Some n \<Rightarrow> Inr n)
      else (case py_int 10 s of None \<Rightarrow> Inl ValueError | Some n \<Rightarrow> Inr n))"
| "to_internal (JInt n) = Inr n"
| "to_internal (JBool b) = Inr (if b then 1 else 0)"
| "to_internal (JFloat r) = Inr (truncate r)"
| "to_internal _ = Inl TypeError"

definition process_token :: "json \<Rightarrow> int list \<Rightarrow> int list \<times> py_error option" where
  \<comment> \<open>the body of \<open>for nft in nfts\<close>, lines 84-102\<close>
  "process_token nft token_ids =
     (case lookup_alias token_aliases nft of
        Inl e \<Rightarrow> (token_ids, Some e)
      | Inr token_id \<Rightarrow>
          if token_id \<noteq> JNull
          then (case to_internal token_id of
                  Inl e \<Rightarrow> (token_ids, Some e)
                | Inr n \<Rightarrow> (token_ids @ [n], None))
          else (token_ids, None))"

definition get_collection_nfts :: "nat \<Rightarrow> (nat \<Rightarrow> json \<Rightarrow> response) \<Rightarrow> int list option" where
  "get_collection_nfts fuel fetch = collect fuel fetch process_token 0 JNull []"

definition main_nfts ::
  "nat \<Rightarrow> (nat \<Rightarrow> json \<Rightarrow> response) \<Rightarrow> string \<Rightarrow> string \<Rightarrow> outcome option"
where
  \<comment> \<open>\<open>main\<close> of the token-id scraper; \<open>save_token_ids\<close> writes
      \<open>sorted(list(set(token_ids)))\<close>\<close>
  "main_nfts fuel fetch output fmt =
     (case get_collection_nfts fuel fetch of
        None \<Rightarrow> None
      | Some token_ids \<Rightarrow>
          Some (if token_ids \<noteq> [] then SavedTokenIds output fmt (sort (remdups token_ids))
                else Exit 1))"

section \<open>The OG snapshot (\<open>process_og_snapshot.py\<close>)\<close>





section \<open>The Lorenz curve and the Gini coefficient (\<open>analyze_distribution.py\<close>)\<close>

text \<open>
  The data frame is the list of its rows, an address and an amount each. The column of
  the amounts holds 64-bit signed integers (values from \<open>- (2 ^ 63)\<close> to
  \<open>2 ^ 63 - 1\<close>), and its sum and its running sums wrap around at 64 bits.
  The floating-point arithmetic of NumPy is idealised as exact arithmetic on rationals.
  \<open>None\<close> stands for the not-a-number that the division by a zero total spreads into
  the result as soon as there are two sample points.
\<close>

definition wrap64 :: "int \<Rightarrow> int" where
  \<comment> \<open>the 64-bit signed integer that an integer wraps around to\<close>
  "wrap64 x = (x + 2 ^ 63) mod 2 ^ 64 - 2 ^ 63"

fun cumsum :: "int \<Rightarrow> int list \<Rightarrow> int list" where
  \<comment> \<open>the running sums, from the sum so far\<close>
  "cumsum acc [] = []"
| "cumsum acc (x # xs) = wrap64 (acc + x) # cumsum (wrap64 (acc + x)) xs"

fun trapz :: "rat list \<Rightarrow> rat list \<Rightarrow> rat" where
  \<comment> \<open>\<open>np.trapz(y, x)\<close>: the sum of \<open>(x[i+1] - x[i]) * (y[i+1] + y[i]) / 2\<close>\<close>
  "trapz (y0 # y1 # ys) (x0 # x1 # xs) = (x1 - x0) * (y1 + y0) / 2 + trapz (y1 # ys) (x1 # xs)"
| "trapz ys xs = 0"

definition create_lorenz_curve :: "(string \<times> int) list \<Rightarrow> rat option" where
  \<comment> \<open>the value returned, \<open>gini\<close>\<close>
  "create_lorenz_curve df =
     (let amounts = sort (map snd df);
          total_tokens = wrap64 (sum_list amounts);
          total_holders = length amounts;
          cumulative_holders_pct =
            map (\<lambda>i. of_nat i / of_nat total_holders * 100) [1..<total_holders + 1];
          cumulative_tokens_pct =
            map (\<lambda>c. of_int c / of_int total_tokens * 100) (cumsum 0 amounts);
          area_under_lorenz = trapz cumulative_tokens_pct cumulative_holders_pct;
          area_under_equality = 5000
      in if total_tokens = 0 \<and> 2 \<le> total_holders then None
         else Some ((area_under_equality - area_under_lorenz) / area_under_equality))"

section \<open>Notions of the statements\<close>

definition holders_view :: "holders \<Rightarrow> (string \<rightharpoonup> json set)" where
  \<comment> \<open>the holder map as Python compares it: a dict from addresses to sets, whatever
      the order of insertion\<close>
  "holders_view hm = map_of (map (\<lambda>(address, token_ids). (address, set token_ids)) hm)"

definition view_add :: "string \<Rightarrow> json \<Rightarrow> (string \<rightharpoonup> json set) \<Rightarrow> (string \<rightharpoonup> json set)" where
  \<comment> \<open>\<open>m[a].add(t)\<close> on the view\<close>
  "view_add a t m = m(a \<mapsto> insert t (case m a of None \<Rightarrow> {} | Some ts \<Rightarrow> ts))"

definition record_effect :: "string \<Rightarrow> json \<Rightarrow> (string \<rightharpoonup> json set) \<Rightarrow> (string \<rightharpoonup> json set)" where
  \<comment> \<open>what a record that raises nothing does to the view: read off from what it does
      to the empty holder map\<close>
  "record_effect network nft m =
     (case fst (process_nft network nft []) of
        [(a, [t])] \<Rightarrow> view_add a t m
      | _ \<Rightarrow> m)"

definition canonical_hex :: "string \<Rightarrow> bool" where
  \<comment> \<open>the words of the specification: lower case, minimal digits, the prefix
      \<open>0x\<close>, no padding with zeros, the value 0 as \<open>0x0\<close>\<close>
  "canonical_hex s =
     (startswith s ''0x'' \<and> drop 2 s \<noteq> []
      \<and> (\<forall>c\<in>set (drop 2 s). c \<in> set ''0123456789abcdef'')
      \<and> (hd (drop 2 s) = CHR ''0'' \<longrightarrow> drop 2 s = ''0''))"

definition page_items :: "json \<Rightarrow> json list" where
  \<comment> \<open>the records that the \<open>for\<close> loop of \<open>read_page\<close> runs through\<close>
  "page_items result =
     (case unwrap result of
        Inl e \<Rightarrow> []
      | Inr data \<Rightarrow>
          (case py_get data ''nfts'' (JArr []) of
             Inl e \<Rightarrow> []
           | Inr nfts \<Rightarrow> (case py_iter nfts of Inl e \<Rightarrow> [] | Inr items \<Rightarrow> items)))"

fun numeric_form :: "json \<Rightarrow> bool" where
  \<comment> \<open>a token id supplied as a number and not as a hex string: an integer that is not
      negative, or a string without the prefix \<open>0x\<close> whose value, if \<open>int\<close>
      accepts it, is not negative\<close>
  "numeric_form (JInt n) = (0 \<le> n)"
| "numeric_form (JStr s) =
     (\<not> startswith s ''0x'' \<and> (case py_int 10 s of None \<Rightarrow> True | Some n \<Rightarrow> 0 \<le> n))"
| "numeric_form _ = True"

definition sourced :: "json set \<Rightarrow> holders \<Rightarrow> bool" where
  \<comment> \<open>every token id of the holder map is the conversion of the token id of a record
      in \<open>R\<close>\<close>
  "sourced R hm =
     (\<forall>a ts t. (a, ts) \<in> set hm \<longrightarrow> t \<in> set ts \<longrightarrow>
        (\<exists>nft\<in>R. \<exists>token_id. lookup_alias token_aliases nft = Inr token_id
                       \<and> token_id_hex token_id = Inr t))"

section \<open>Inputs of the scenarios\<close>

definition ten_equal_holders :: "(string \<times> int) list" where
  \<comment> \<open>ten holders with the amount 5 each\<close>
  "ten_equal_holders =
     [(''0x1'', 5), (''0x2'', 5), (''0x3'', 5), (''0x4'', 5), (''0x5'', 5),
      (''0x6'', 5), (''0x7'', 5), (''0x8'', 5), (''0x9'', 5), (''0xa'', 5)]"

definition zero_token_record :: json where
  \<comment> \<open>a record with an owner and the token id 0\<close>
  "zero_token_record = JObj [(''ownerAddress'', JStr ''0xabc''), (''tokenId'', JInt 0)]"

definition fifty_records :: "json list" where
  \<comment> \<open>fifty records: owner \<open>hex(i)\<close> holds token \<open>i\<close>, for i from 1 to 50\<close>
  "fifty_records =
     map (\<lambda>i. JObj [(''ownerAddress'', JStr (hex (int i))), (''tokenId'', JInt (int i))]) [1..<51]"

definition rate_limited_fetch :: "nat \<Rightarrow> json \<Rightarrow> response" where
  \<comment> \<open>page 1 has the fifty records and a next page key, page 2 is an error payload\<close>
  "rate_limited_fetch page_count page_key =
     (if page_count = 0
      then Response (JObj [(''result'',
             JObj [(''nfts'', JArr fifty_records), (''nextPageKey'', JStr ''page2'')])])
      else Response (JObj [(''error'', JStr ''rate limited'')]))"

definition empty_fetch :: "nat \<Rightarrow> json \<Rightarrow> response" where
  \<comment> \<open>a collection without tokens: one page, no record, no next page key\<close>
  "empty_fetch page_count page_key =
     Response (JObj [(''result'', JObj [(''nfts'', JArr []), (''nextPageKey'', JNull)])])"

definition example_args :: holder_args where
  "example_args =
     \<lparr> arg_contract_address = ''0xC0FFEE'', arg_name = ''My Collection'',
       arg_network = ''ethereum'', arg_output = None, arg_description = None,
       arg_block_height = None \<rparr>"


definition two_holder_fetch :: "nat \<Rightarrow> json \<Rightarrow> response" where
  \<comment> \<open>one page, unwrapped: two holders, one of them with two tokens\<close>
  "two_holder_fetch page_count page_key =
     Response (JObj [(''nfts'', JArr
       [JObj [(''ownerAddress'', JStr ''0xB''), (''tokenId'', JStr ''16'')],
        JObj [(''owner_address'', JStr ''0xa''), (''token_id'', JInt 3)],
        JObj [(''owner'', JStr ''b''), (''id'', JStr ''0x2'')]])])"

definition good_record :: json where
  "good_record = JObj [(''ownerAddress'', JStr ''0xa''), (''tokenId'', JStr ''1'')]"

definition bad_record :: json where
  \<comment> \<open>a token id that is neither a number nor a hex string\<close>
  "bad_record = JObj [(''ownerAddress'', JStr ''0xb''), (''tokenId'', JStr ''abc'')]"

definition padded_hex_fetch :: "nat \<Rightarrow> json \<Rightarrow> response" where
  \<comment> \<open>one page with one record, its token id an upper-case, zero-padded hex string\<close>
  "padded_hex_fetch page_count page_key =
     Response (JObj [(''result'', JObj [(''nfts'', JArr
       [JObj [(''ownerAddress'', JStr ''0xabc''), (''tokenId'', JStr ''0x00FF'')]])])])"

definition unparsable_hex_fetch :: "nat \<Rightarrow> json \<Rightarrow> response" where
  \<comment> \<open>one page with one record, its token id a \<open>0x\<close> string that is not a number\<close>
  "unparsable_hex_fetch page_count page_key =
     Response (JObj [(''result'', JObj [(''nfts'', JArr
       [JObj [(''ownerAddress'', JStr ''0xabc''), (''tokenId'', JStr ''0xZZ'')]])])])"

definition other_record :: json where
  "other_record = JObj [(''owner'', JStr ''0xB''), (''id'', JInt 26)]"

section \<open>The token-id codec\<close>

lemma of_char_hex_digit: "d < 16 \<Longrightarrow> (of_char (hex_digit d) :: nat) = (if d < 10 then 48 + d else 87 + d)"
  by (simp add: hex_digit_def)

lemma digit_val_hex_digit: "d < 16 \<Longrightarrow> digit_val (hex_digit d) = Some d"
  by (simp add: digit_val_def of_char_hex_digit Let_def)

lemma hex_digit_not_underscore: "d < 16 \<Longrightarrow> hex_digit d \<noteq> CHR ''_''"
proof
  assume "d < 16" and "hex_digit d = CHR ''_''"
  then have "(of_char (hex_digit d) :: nat) = 95" by simp
  with \<open>d < 16\<close> show False by (simp add: of_char_hex_digit split: if_splits)
qed

lemma hex_digit_not_space: "d < 16 \<Longrightarrow> \<not> int_isspace (hex_digit d)"
  by (auto simp add: int_isspace_def of_char_hex_digit split: if_splits)

lemma hex_nat_digits: "c \<in> set (hex_nat n) \<Longrightarrow> c \<in> hex_digit ` {..<16}"
proof (induction n rule: hex_nat.induct)
  case (1 n)
  show ?case
  proof (cases "n < 16")
    case True
    with 1(2) show ?thesis by (subst (asm) hex_nat.simps) auto
  next
    case False
    have "n mod 16 < 16" by simp
    then have "hex_digit (n mod 16) \<in> hex_digit ` {..<16}" by blast
    moreover have "c \<in> set (hex_nat (n div 16)) \<or> c = hex_digit (n mod 16)"
      using False 1(2) by (subst (asm) hex_nat.simps) auto
    ultimately show ?thesis using 1(1) False by auto
  qed
qed

lemma hex_nat_nonempty: "hex_nat n \<noteq> []"
  by (subst hex_nat.simps) simp

lemma digits_value_append:
  "\<forall>c\<in>set xs. c \<noteq> CHR ''_'' \<Longrightarrow>
   digits_value b (xs @ ys) acc =
     (case digits_value b xs acc of None \<Rightarrow> None | Some a \<Rightarrow> digits_value b ys a)"
  by (induction xs arbitrary: acc) (auto split: option.splits)

lemma digits_value_hex_nat: "digits_value 16 (hex_nat n) acc = Some (acc * 16 ^ length (hex_nat n) + n)"
proof (induction n arbitrary: acc rule: hex_nat.induct)
  case (1 n)
  show ?case
  proof (cases "n < 16")
    case True
    then show ?thesis
      by (subst (1 2) hex_nat.simps) (simp add: digit_val_hex_digit hex_digit_not_underscore)
  next
    case False
    have nu: "\<forall>c\<in>set (hex_nat (n div 16)). c \<noteq> CHR ''_''"
    proof
      fix c assume "c \<in> set (hex_nat (n div 16))"
      then obtain d where "d < 16" "c = hex_digit d" using hex_nat_digits by blast
      then show "c \<noteq> CHR ''_''" using hex_digit_not_underscore by simp
    qed
    have m: "n mod 16 < 16" by simp
    have "digits_value 16 (hex_nat (n div 16) @ [hex_digit (n mod 16)]) acc
          = Some ((acc * 16 ^ length (hex_nat (n div 16)) + n div 16) * 16 + n mod 16)"
      using False 1 [of acc] m
      by (simp add: digits_value_append [OF nu] digit_val_hex_digit hex_digit_not_underscore)
    moreover have "hex_nat n = hex_nat (n div 16) @ [hex_digit (n mod 16)]"
      using False by (subst hex_nat.simps) simp
    ultimately show ?thesis by (simp add: algebra_simps)
  qed
qed

lemma strip_hex_nat:
  "rev (dropWhile int_isspace (rev (dropWhile int_isspace (''0x'' @ hex_nat n)))) = ''0x'' @ hex_nat n"
proof -
  have a: "dropWhile int_isspace (''0x'' @ hex_nat n) = ''0x'' @ hex_nat n"
    by (simp add: int_isspace_def)
  obtain ys d where ys: "hex_nat n = ys @ [hex_digit d]" and d: "d < 16"
  proof -
    have "last (hex_nat n) \<in> hex_digit ` {..<16}"
      using hex_nat_digits [of "last (hex_nat n)" n] hex_nat_nonempty [of n] by simp
    then obtain d where "d < 16" "last (hex_nat n) = hex_digit d" by auto
    moreover have "hex_nat n = butlast (hex_nat n) @ [last (hex_nat n)]"
      using hex_nat_nonempty [of n] by simp
    ultimately show ?thesis using that by metis
  qed
  have "dropWhile int_isspace (rev (''0x'' @ hex_nat n)) = rev (''0x'' @ hex_nat n)"
    using hex_digit_not_space [OF d] by (simp add: ys)
  with a show ?thesis by simp
qed

lemma py_int_hex: "0 \<le> v \<Longrightarrow> py_int 16 (hex v) = Some v"
proof -
  assume v: "0 \<le> v"
  obtain c cs where cs: "hex_nat (nat v) = c # cs"
    using hex_nat_nonempty [of "nat v"] by (cases "hex_nat (nat v)") auto
  obtain d where d: "d < 16" "c = hex_digit d"
    using hex_nat_digits [of c "nat v"] cs by auto
  have c: "c \<noteq> CHR ''_''" using d hex_digit_not_underscore by simp
  show ?thesis
    using v c strip_hex_nat [of "nat v"] digits_value_hex_nat [of "nat v" 0]
    by (simp add: py_int_def hex_def startswith_def cs)
qed


text \<open>
  Claim C7. For every non-negative integer \<open>v\<close>, the hex string \<open>hex(v)\<close> that the
  holder scraper stores is read back as \<open>v\<close>: by the conversion of the token-id
  scraper (lines 96-102 of \<open>scrape_token_ids.py\<close>) and by the sort key
  \<open>int(x, 16)\<close> of the holder scraper.
\<close>

theorem hex_round_trip:
  "0 \<le> v \<Longrightarrow> to_internal (JStr (hex v)) = Inr v \<and> int16 (JStr (hex v)) = Inr v"
proof -
  assume v: "0 \<le> v"
  have "startswith (hex v) ''0x''"
    using v by (simp add: hex_def startswith_def)
  then show ?thesis
    using py_int_hex [OF v] by simp
qed

theorem hex_round_trip_witness:
  "(0::int) \<le> 26 \<and> hex 26 = ''0x1a'' \<and> to_internal (JStr ''0x1a'') = Inr 26
     \<and> int16 (JStr ''0x1a'') = Inr 26"
proof -
  have h: "hex 26 = ''0x1a''" by code_simp
  show ?thesis
    using hex_round_trip [of 26] by (simp add: h)
qed

section \<open>Canonical addresses\<close>

lemma lower_char_idem: "lower_char (lower_char c) = lower_char c"
  by (auto simp add: lower_char_def Let_def)

lemma lower_idem: "lower (lower s) = lower s"
  by (simp add: lower_def lower_char_idem)

lemma lower_fixes_0x: "lower (''0x'' @ r) = ''0x'' @ lower r"
  by (simp add: lower_def lower_char_def)

lemma canonicalize_prefixed:
  "canonicalize network (CHR ''0'' # CHR ''x'' # r) =
     (if lower network = ''starknet''
      then (if lstrip_zeros (lower r) = [] then ''0x0'' else CHR ''0'' # CHR ''x'' # lstrip_zeros (lower r))
      else CHR ''0'' # CHR ''x'' # lower r)"
  by (simp add: canonicalize_def startswith_def lower_fixes_0x [simplified] Let_def)

lemma canonicalize_unprefixed:
  "\<exists>r. canonicalize network x = canonicalize network (''0x'' @ r)"
proof (cases "startswith x ''0x''")
  case True
  then have "x = ''0x'' @ drop 2 x" by (metis startswith_def append_take_drop_id length_Cons list.size(3) numeral_2_eq_2)
  then show ?thesis by metis
next
  case False
  then have "canonicalize network x = canonicalize network (''0x'' @ x)"
    by (simp add: canonicalize_def startswith_def)
  then show ?thesis by blast
qed

lemma lstrip_zeros_idem: "lstrip_zeros (lstrip_zeros s) = lstrip_zeros s"
  by (simp add: lstrip_zeros_def)

lemma lower_lstrip_zeros: "lower (lstrip_zeros (lower r)) = lstrip_zeros (lower r)"
proof -
  have "set (lstrip_zeros (lower r)) \<subseteq> set (lower r)"
    by (auto simp add: lstrip_zeros_def dest: set_dropWhileD)
  then have "\<forall>c\<in>set (lstrip_zeros (lower r)). lower_char c = c"
    by (auto simp add: lower_def lower_char_idem)
  then show ?thesis by (simp add: lower_def map_idI)
qed


text \<open>
  Claim C6. Canonicalising an address twice is canonicalising it once, for every raw
  address string and every network name.
\<close>

theorem canonicalize_idempotent:
  "canonicalize network (canonicalize network x) = canonicalize network x"
proof -
  obtain r where r: "canonicalize network x = canonicalize network (''0x'' @ r)"
    using canonicalize_unprefixed by blast
  have z: "lstrip_zeros (lower ''0'') = []"
    by (simp add: lower_def lower_char_def lstrip_zeros_def)
  show ?thesis
    unfolding r
    by (simp add: canonicalize_prefixed z lower_idem lower_lstrip_zeros lstrip_zeros_idem)
qed

theorem canonicalize_idempotent_witness:
  "canonicalize ''starknet'' ''0x000ABC'' = ''0xabc''
     \<and> canonicalize ''starknet'' ''0xabc'' = ''0xabc''"
proof -
  have h: "canonicalize ''starknet'' ''0x000ABC'' = ''0xabc''" by code_simp
  show ?thesis
    using canonicalize_idempotent [of "''starknet''" "''0x000ABC''"] by (simp add: h)
qed

section \<open>The Gini coefficient\<close>

text \<open>
  Claim C10. For a balance list with exactly one holder, whose amount is positive, the
  Gini coefficient that \<open>create_lorenz_curve\<close> returns is exactly 1: the trapezoid
  sum over a single sample point is empty, so the area under the Lorenz curve is 0.
\<close>

theorem gini_single_holder:
  "0 < amount \<Longrightarrow> create_lorenz_curve [(address, amount)] = Some 1"
  by (simp add: create_lorenz_curve_def)

theorem gini_single_holder_witness:
  "(0::int) < 7 \<and> create_lorenz_curve [(''0xabc'', 7)] = Some 1"
  using gini_single_holder [of 7 "''0xabc''"] by simp

text \<open>
  Claim C1 says that the Gini coefficient of a non-empty list of equal positive balances
  is exactly 0. The Lorenz curve of the code starts at its first sample point
  \<open>(100/n, 100/n)\<close> and not at the origin, while the area under the line of equality,
  5000, is that of the whole triangle over \<open>[0, 100]\<close>; the strip over
  \<open>[0, 100/n]\<close> is counted as inequality. For ten holders with the amount 5 each the
  code returns 1/100.
\<close>

theorem gini_ten_equal_holders:
  "create_lorenz_curve ten_equal_holders = Some (1 / 100)"
  by code_simp

text \<open>
  In general, \<open>n\<close> equal positive balances whose sum does not wrap around give
  \<open>1 / n\<^sup>2\<close>, which is never 0.
\<close>

lemma trapz_diagonal:
  "trapz (x # xs) (x # xs) = ((last (x # xs))\<^sup>2 - x\<^sup>2) / 2"
proof (induction xs arbitrary: x)
  case Nil
  then show ?case by simp
next
  case (Cons y ys)
  have "trapz (x # y # ys) (x # y # ys) = (y - x) * (y + x) / 2 + trapz (y # ys) (y # ys)"
    by simp
  also have "\<dots> = (y\<^sup>2 - x\<^sup>2) / 2 + ((last (y # ys))\<^sup>2 - y\<^sup>2) / 2"
    by (simp only: Cons.IH power2_eq_square) (simp add: algebra_simps)
  finally show ?case by (simp add: field_simps)
qed

lemma upt_from_1: "[1..<n + 1] = map Suc [0..<n]"
  by (simp add: map_Suc_upt del: upt_Suc)

lemma wrap64_id: "- (2 ^ 63) \<le> x \<Longrightarrow> x < 2 ^ 63 \<Longrightarrow> wrap64 x = x"
  by (simp add: wrap64_def)

lemma cumsum_replicate:
  "0 \<le> acc \<Longrightarrow> 0 \<le> a \<Longrightarrow> acc + int n * a < 2 ^ 63 \<Longrightarrow>
   cumsum acc (replicate n a) = map (\<lambda>i. acc + (int i + 1) * a) [0..<n]"
proof (induction n arbitrary: acc)
  case 0
  then show ?case by simp
next
  case (Suc n)
  have na: "0 \<le> int n * a" using Suc.prems(2) by simp
  have b: "acc + a + int n * a < 2 ^ 63"
    using Suc.prems(3) by (simp add: algebra_simps)
  have w: "wrap64 (acc + a) = acc + a"
    using Suc.prems(1,2) na b by (intro wrap64_id) linarith+
  have "cumsum acc (replicate (Suc n) a) = (acc + a) # map (\<lambda>i. acc + a + (int i + 1) * a) [0..<n]"
    using Suc.IH [of "acc + a"] Suc.prems(1,2) b by (simp add: w)
  also have "\<dots> = map (\<lambda>i. acc + (int i + 1) * a) [0..<Suc n]"
    by (simp only: map_upt_Suc) (simp add: algebra_simps)
  finally show ?case .
qed

lemma gini_equal_holders:
  assumes "df \<noteq> []" and "\<forall>row\<in>set df. snd row = a" and "0 < a"
    and "int (length df) * a < 2 ^ 63"
  shows "create_lorenz_curve df = Some (1 / (of_nat (length df))\<^sup>2)"
proof -
  define n where "n = length df"
  have n: "0 < n" using assms(1) by (simp add: n_def)
  have am: "map snd df = replicate n a"
    using assms(2) by (simp add: n_def map_replicate_const [symmetric] cong: map_cong)
  have so: "sort (replicate n a) = replicate n a"
    by (simp add: sorted_sort_id sorted_replicate)
  have "0 \<le> int n * a" using assms(3) by simp
  then have "wrap64 (int n * a) = int n * a"
    using assms(4) by (intro wrap64_id) (simp_all add: n_def)
  then have tot: "wrap64 (sum_list (replicate n a)) = int n * a"
    by (simp add: sum_list_replicate)
  have cs: "cumsum 0 (replicate n a) = map (\<lambda>i. 0 + (int i + 1) * a) [0..<n]"
    using assms(3,4) by (intro cumsum_replicate) (simp_all add: n_def)
  have nz: "int n * a \<noteq> 0" using n assms(3) by simp
  define f :: "nat \<Rightarrow> rat" where "f = (\<lambda>i. (of_nat i + 1) / of_nat n * 100)"
  define xs :: "rat list" where "xs = map f [0..<n]"
  have xs1: "map (\<lambda>i. of_nat i / of_nat n * 100) [1..<n + 1] = xs"
    by (simp only: upt_from_1 map_map xs_def f_def comp_def) (simp add: add.commute)
  have "\<And>i. of_int ((int i + 1) * a) / of_int (int n * a) = ((of_nat i + 1) / of_nat n :: rat)"
    using assms(3) by simp
  then have ys: "map (\<lambda>c. of_int c / of_int (int n * a) * 100) (cumsum 0 (replicate n a)) = xs"
    by (simp only: cs map_map comp_def xs_def f_def add_0)
  obtain m where m: "n = Suc m" using n by (cases n) auto
  have xs': "xs = f 0 # map (\<lambda>i. f (Suc i)) [0..<m]"
    unfolding xs_def m by (simp only: map_upt_Suc)
  have la: "last xs = f m"
    unfolding xs_def m by simp
  have "(of_nat m + 1 :: rat) = of_nat n" by (simp add: m)
  then have "f m = of_nat n / of_nat n * 100" by (simp only: f_def)
  then have fm: "f m = 100" using n by simp
  have f0: "f 0 = 100 / of_nat n" by (simp add: f_def)
  have "trapz xs xs = ((f m)\<^sup>2 - (f 0)\<^sup>2) / 2"
    using trapz_diagonal [of "f 0" "map (\<lambda>i. f (Suc i)) [0..<m]"] la
    by (simp only: xs' [symmetric])
  then have "trapz xs xs = (10000 - 10000 / (of_nat n)\<^sup>2) / 2"
    by (simp add: fm f0 power2_eq_square)
  then have "(5000 - trapz xs xs) / 5000 = 1 / (of_nat n)\<^sup>2"
    by simp
  then show ?thesis
    using nz
    by (simp only: create_lorenz_curve_def Let_def am so tot ys xs1 n_def [symmetric]
          length_replicate) simp
qed

text \<open>
  Three holders of \<open>2 ^ 62\<close> each: the total wraps around to \<open>- (2 ^ 62)\<close>, and the
  value returned is negative.
\<close>

lemma gini_wrapped_total:
  "create_lorenz_curve [(''0x1'', 2 ^ 62), (''0x2'', 2 ^ 62), (''0x3'', 2 ^ 62)] = Some (- 1 / 3)"
  by code_simp

section \<open>Records with a token id of 0\<close>

text \<open>
  Claim C2 says that a record is skipped if and only if it lacks an owner address or a
  token id, and that a record with both, a token id equal to 0 included, is inserted.
  The holder scraper tests \<open>if owner_address and token_id\<close>, the truth value of the
  fields and not their presence: a record whose token id is the integer 0 is skipped.
  The token-id scraper tests \<open>token_id is not None\<close> and keeps the same record.
\<close>

theorem zero_token_id_skipped:
  "process_nfts ''starknet'' [zero_token_record] [] = ([], None)
     \<and> for_each process_token [zero_token_record] [] = ([0], None)"
  by code_simp

section \<open>A page that fails\<close>

lemma read_page_error:
  "''error'' \<in> set (map fst payload) \<Longrightarrow> read_page step (JObj payload) st = Break st"
  by (simp add: read_page_def)

lemma collect_failed_page:
  assumes "fetch page_count page_key = RequestException
           \<or> (\<exists>payload. fetch page_count page_key = Response (JObj payload)
                          \<and> ''error'' \<in> set (map fst payload))"
  shows "collect (Suc fuel) fetch step page_count page_key st = Some st"
  using assms
proof
  assume "fetch page_count page_key = RequestException"
  then show ?thesis by simp
next
  assume "\<exists>payload. fetch page_count page_key = Response (JObj payload)
                      \<and> ''error'' \<in> set (map fst payload)"
  then obtain payload where "fetch page_count page_key = Response (JObj payload)"
    and "''error'' \<in> set (map fst payload)" by blast
  then show ?thesis by (simp add: read_page_error)
qed

text \<open>
  Claim C5. When the request for a page fails, or the payload of the response is an
  object with an \<open>error\<close> field, the loop of either scraper ends at once and returns
  what it has collected from the pages before: the holder map, the list of token ids.
  Any positive amount of fuel is enough. In the scenario of the specification, page 1
  has 50 records and page 2 is \<open>{error: "rate limited"}\<close>: the 50 records are returned.
\<close>

theorem failed_page_keeps_records:
  assumes "fetch page_count page_key = RequestException
           \<or> (\<exists>payload. fetch page_count page_key = Response (JObj payload)
                          \<and> ''error'' \<in> set (map fst payload))"
  shows "collect (Suc fuel) fetch (process_nft network) page_count page_key holders_tokens
           = Some holders_tokens
         \<and> collect (Suc fuel) fetch process_token page_count page_key token_ids = Some token_ids"
  using assms by (simp only: collect_failed_page)

lemma fifty_token_ids:
  "collect 2 rate_limited_fetch process_token 0 JNull []
     = collect 1 rate_limited_fetch process_token 1 (JStr ''page2'') (map int [1..<51])"
  by code_simp

lemma fifty_holders:
  "collect 2 rate_limited_fetch (process_nft ''ethereum'') 0 JNull []
     = collect 1 rate_limited_fetch (process_nft ''ethereum'') 1 (JStr ''page2'')
         (map (\<lambda>i. (hex (int i), [JStr (hex (int i))])) [1..<51])"
  by code_simp

theorem failed_page_keeps_records_witness:
  "get_collection_nfts 2 rate_limited_fetch = Some (map int [1..<51])
   \<and> collect 2 rate_limited_fetch (process_nft ''ethereum'') 0 JNull []
       = Some (map (\<lambda>i. (hex (int i), [JStr (hex (int i))])) [1..<51])"
proof -
  have e: "rate_limited_fetch 1 (JStr ''page2'') = RequestException
           \<or> (\<exists>payload. rate_limited_fetch 1 (JStr ''page2'') = Response (JObj payload)
                          \<and> ''error'' \<in> set (map fst payload))"
    by (simp add: rate_limited_fetch_def)
  show ?thesis
    using e failed_page_keeps_records [of rate_limited_fetch 1 "JStr ''page2''" 0 "''ethereum''"
        "map (\<lambda>i. (hex (int i), [JStr (hex (int i))])) [1..<51]" "map int [1..<51]"]
    by (simp only: get_collection_nfts_def fifty_token_ids fifty_holders One_nat_def)
qed

section \<open>The exit status\<close>

text \<open>
  What \<open>main\<close> does with what the collection returns. An empty holder snapshot or
  an empty list of token ids: \<open>main\<close> exits with the status 1 and writes no file.
  A snapshot or a list that is not empty: \<open>main\<close> saves it and the exit status is
  0. A loop of the holder scraper that ends with an empty holder map always gives the
  empty snapshot, and so the exit status 1.
\<close>

lemma main_exit_status:
  "(get_collection_holders fuel fetch (arg_contract_address args) (arg_network args)
       (arg_name args) (snapshot_description args) (arg_block_height args) = Some (Inr doc)
    \<longrightarrow> (\<exists>out. main_holders fuel fetch args = Some out
          \<and> (snapshot doc = [] \<longrightarrow> exit_status out \<noteq> 0 \<and> \<not> writes_file out)
          \<and> (snapshot doc \<noteq> [] \<longrightarrow> exit_status out = 0
                \<and> out = SavedSnapshot (output_path args) doc)))
   \<and> (get_collection_nfts fuel fetch = Some token_ids
    \<longrightarrow> (\<exists>out. main_nfts fuel fetch output fmt = Some out
          \<and> (token_ids = [] \<longrightarrow> exit_status out \<noteq> 0 \<and> \<not> writes_file out)
          \<and> (token_ids \<noteq> [] \<longrightarrow> exit_status out = 0
                \<and> out = SavedTokenIds output fmt (sort (remdups token_ids)))))
   \<and> (collect fuel fetch (process_nft (arg_network args)) 0 JNull [] = Some []
    \<longrightarrow> main_holders fuel fetch args = Some (Exit 1))"
  by (simp add: main_holders_def main_nfts_def get_collection_holders_def snapshot_data_def)

lemma empty_run_holders:
  "get_collection_holders 1 empty_fetch (arg_contract_address example_args)
     (arg_network example_args) (arg_name example_args) (snapshot_description example_args)
     (arg_block_height example_args)
   = Some (Inr \<lparr> block_height = 0, chain_id = ''0x1'', claim_contract = ''0x1'',
                  contract_address = ''0xc0ffee'', description = ''My Collection snapshot'',
                  entrypoint = ''claim_from_forwarder'', name = ''My Collection'',
                  snapshot = [] \<rparr>)"
  by code_simp

lemma fifty_run_holders:
  "get_collection_holders 2 rate_limited_fetch (arg_contract_address example_args)
     (arg_network example_args) (arg_name example_args) (snapshot_description example_args)
     (arg_block_height example_args)
   = Some (Inr \<lparr> block_height = 0, chain_id = ''0x1'', claim_contract = ''0x1'',
                  contract_address = ''0xc0ffee'', description = ''My Collection snapshot'',
                  entrypoint = ''claim_from_forwarder'', name = ''My Collection'',
                  snapshot = sort_key fst (map (\<lambda>i. (hex (int i), [JStr (hex (int i))])) [1..<51]) \<rparr>)"
  by code_simp

lemma empty_run_nfts: "get_collection_nfts 1 empty_fetch = Some []"
  by code_simp

lemma fifty_run_nfts: "get_collection_nfts 2 rate_limited_fetch = Some (map int [1..<51])"
  by code_simp

lemma example_output_path: "output_path example_args = ''my_collection_snapshot_ethereum.json''"
  by code_simp

lemma main_exit_status_runs:
  "main_holders 1 empty_fetch example_args = Some (Exit 1)
   \<and> main_nfts 1 empty_fetch ''token_ids.txt'' ''txt'' = Some (Exit 1)
   \<and> (\<exists>doc. main_holders 2 rate_limited_fetch example_args
               = Some (SavedSnapshot ''my_collection_snapshot_ethereum.json'' doc)
            \<and> length (snapshot doc) = 50)
   \<and> main_nfts 2 rate_limited_fetch ''token_ids.txt'' ''txt''
       = Some (SavedTokenIds ''token_ids.txt'' ''txt'' (map int [1..<51]))"
proof -
  define doc0 where "doc0 = \<lparr> block_height = 0, chain_id = ''0x1'', claim_contract = ''0x1'',
                  contract_address = ''0xc0ffee'', description = ''My Collection snapshot'',
                  entrypoint = ''claim_from_forwarder'', name = ''My Collection'',
                  snapshot = [] \<rparr>"
  define doc50 where "doc50 = \<lparr> block_height = 0, chain_id = ''0x1'', claim_contract = ''0x1'',
                  contract_address = ''0xc0ffee'', description = ''My Collection snapshot'',
                  entrypoint = ''claim_from_forwarder'', name = ''My Collection'',
                  snapshot = sort_key fst (map (\<lambda>i. (hex (int i), [JStr (hex (int i))])) [1..<51]) \<rparr>"
  have s: "sort (remdups (map int [1..<51])) = map int [1..<51]" by code_simp
  have ne: "map int [1..<51] \<noteq> []" by code_simp
  have l0: "snapshot doc0 = []" by (simp add: doc0_def)
  have l50: "length (snapshot doc50) = 50" by (simp add: doc50_def)
  then have ne50: "snapshot doc50 \<noteq> []" by auto
  have a: "\<exists>out. main_holders 1 empty_fetch example_args = Some out
          \<and> exit_status out \<noteq> 0 \<and> \<not> writes_file out"
    and a': "\<exists>out. main_nfts 1 empty_fetch ''token_ids.txt'' ''txt'' = Some out
          \<and> exit_status out \<noteq> 0 \<and> \<not> writes_file out"
    using main_exit_status [of 1 empty_fetch example_args doc0 "[]" "''token_ids.txt''" "''txt''"]
      empty_run_holders empty_run_nfts l0
    by (simp_all add: doc0_def)
  have b: "main_holders 2 rate_limited_fetch example_args
             = Some (SavedSnapshot (output_path example_args) doc50)"
    and b': "main_nfts 2 rate_limited_fetch ''token_ids.txt'' ''txt''
             = Some (SavedTokenIds ''token_ids.txt'' ''txt'' (sort (remdups (map int [1..<51]))))"
    using main_exit_status [of 2 rate_limited_fetch example_args doc50 "map int [1..<51]" "''token_ids.txt''" "''txt''"]
      fifty_run_holders fifty_run_nfts ne50 ne
    by (simp_all add: doc50_def)
  have c: "main_holders 1 empty_fetch example_args = Some (Exit 1)"
    unfolding main_holders_def empty_run_holders by simp
  have c': "main_nfts 1 empty_fetch ''token_ids.txt'' ''txt'' = Some (Exit 1)"
    unfolding main_nfts_def empty_run_nfts by simp
  show ?thesis
    using a a' b b' c c' l50 s by (simp add: example_output_path)
qed

text \<open>
  Claim C9 says that a run with no record collected exits with a status that is not 0
  and writes no file, and that a run with at least one record collected saves its
  output and exits with the status 0. The holder scraper converts the holder map to
  the snapshot format after the loop, outside the \<open>try\<close> block. A token id that
  starts with \<open>0x\<close> is stored as it is; when \<open>int(x, 16)\<close> rejects it, the sort
  key raises and nobody catches the exception: the record is collected, no file is
  written and the exit status is 1. The token-id scraper converts inside the
  \<open>try\<close> block: on the same page it collects nothing and exits with the status 1.
\<close>

theorem collected_record_not_saved:
  "collect 1 unparsable_hex_fetch (process_nft ''ethereum'') 0 JNull []
     = Some [(''0xabc'', [JStr ''0xZZ''])]
   \<and> main_holders 1 unparsable_hex_fetch example_args = Some (Uncaught ValueError)
   \<and> exit_status (Uncaught ValueError) = 1
   \<and> \<not> writes_file (Uncaught ValueError)
   \<and> main_nfts 1 unparsable_hex_fetch ''token_ids.txt'' ''txt'' = Some (Exit 1)"
  by code_simp

section \<open>The order of a snapshot\<close>










lemma two_holder_run:
  "get_collection_holders 1 two_holder_fetch ''0xC0FFEE'' ''ethereum'' ''Name'' ''Description'' None
   = Some (Inr \<lparr> block_height = 0, chain_id = ''0x1'', claim_contract = ''0x1'',
                  contract_address = ''0xc0ffee'', description = ''Description'',
                  entrypoint = ''claim_from_forwarder'', name = ''Name'',
                  snapshot = [(''0xa'', [JStr ''0x3'']), (''0xb'', [JStr ''0x2'', JStr ''0x10''])] \<rparr>)"
  by code_simp


section \<open>The order of the records\<close>

text \<open>
  Claim C8 says that the holder map does not depend on the order of the records. An
  exception raised on a record ends the collection (the \<open>except\<close> clauses
  \<open>break\<close>), so the records after a malformed one are lost, and which ones they
  are depends on the order.
\<close>

theorem aggregation_order_counterexample:
  "mset [bad_record, good_record] = mset [good_record, bad_record]
   \<and> process_nfts ''ethereum'' [good_record, bad_record] [] = ([(''0xa'', [JStr ''0x1''])], Some ValueError)
   \<and> process_nfts ''ethereum'' [bad_record, good_record] [] = ([], Some ValueError)
   \<and> holders_view (fst (process_nfts ''ethereum'' [bad_record, good_record] []))
       \<noteq> holders_view (fst (process_nfts ''ethereum'' [good_record, bad_record] []))"
proof -
  have a: "process_nfts ''ethereum'' [good_record, bad_record] [] = ([(''0xa'', [JStr ''0x1''])], Some ValueError)"
    by code_simp
  have b: "process_nfts ''ethereum'' [bad_record, good_record] [] = ([], Some ValueError)"
    by code_simp
  have "holders_view [(''0xa'', [JStr ''0x1''])] ''0xa'' \<noteq> holders_view [] ''0xa''"
    by (simp add: holders_view_def)
  then have "holders_view [] \<noteq> holders_view [(''0xa'', [JStr ''0x1''])]" by metis
  then show ?thesis by (simp add: a b add.commute)
qed

lemma map_of_update_all:
  "map_of (map (\<lambda>(k, ts). if k = a then (k, f ts) else (k, ts)) hm) x
   = (if x = a then map_option f (map_of hm a) else map_of hm x)"
  by (induction hm) (auto simp add: case_prod_unfold)

lemma view_map_of: "holders_view hm x = map_option set (map_of hm x)"
  by (simp add: holders_view_def map_of_map)

lemma view_add_token:
  assumes "hashable t"
  shows "snd (add_token a t hm) = None"
    and "holders_view (fst (add_token a t hm)) = view_add a t (holders_view hm)"
proof -
  show "snd (add_token a t hm) = None"
    using assms by (simp add: add_token_def Let_def)
  show "holders_view (fst (add_token a t hm)) = view_add a t (holders_view hm)"
  proof
    fix x
    show "holders_view (fst (add_token a t hm)) x = view_add a t (holders_view hm) x"
    proof (cases "a \<in> set (map fst hm)")
      case True
      then obtain ts where "map_of hm a = Some ts"
        by (metis map_of_eq_None_iff not_Some_eq set_map)
      with True assms show ?thesis
        by (auto simp add: add_token_def map_of_update_all view_add_def view_map_of)
    next
      case False
      then have n: "map_of hm a = None" by (simp add: map_of_eq_None_iff)
      have "holders_view (hm @ [(a, [])]) x = (if x = a then Some {} else holders_view hm x)"
        using n by (auto simp add: view_map_of map_add_def split: option.splits)
      with False assms n show ?thesis
        by (auto simp add: add_token_def map_of_update_all view_add_def view_map_of map_add_def
              split: option.splits)
    qed
  qed
qed

lemma add_token_empty:
  "add_token a t [] = (if hashable t then ([(a, [t])], None) else ([(a, [])], Some TypeError))"
  by (simp add: add_token_def)

lemma process_nft_effect:
  assumes "snd (process_nft network nft []) = None"
  shows "snd (process_nft network nft hm) = None
         \<and> holders_view (fst (process_nft network nft hm)) = record_effect network nft (holders_view hm)"
proof (cases "\<exists>a t. process_nft network nft [] = add_token a t [] \<and> (\<forall>h. process_nft network nft h = add_token a t h)")
  case True
  then obtain a t where e: "process_nft network nft [] = add_token a t []"
    and h: "\<And>h. process_nft network nft h = add_token a t h" by blast
  have ha: "hashable t" using assms e by (auto simp add: add_token_empty split: if_splits)
  then have "fst (process_nft network nft []) = [(a, [t])]" by (simp add: e add_token_empty)
  then show ?thesis
    using view_add_token [OF ha] by (simp add: h record_effect_def)
next
  case False
  then have "\<forall>h. process_nft network nft h = (h, None)"
    using assms
    by (auto simp add: process_nft_def split: sum.splits json.splits if_splits)
  then show ?thesis by (simp add: record_effect_def)
qed

lemma for_each_effect:
  assumes "\<forall>nft\<in>set xs. snd (process_nft network nft []) = None"
  shows "snd (for_each (process_nft network) xs hm) = None
         \<and> holders_view (fst (for_each (process_nft network) xs hm))
             = fold (record_effect network) xs (holders_view hm)"
  using assms
proof (induction xs arbitrary: hm)
  case Nil
  then show ?case by simp
next
  case (Cons nft xs)
  obtain hm' where p: "process_nft network nft hm = (hm', None)"
    using process_nft_effect [of network nft hm] Cons.prems
    by (cases "process_nft network nft hm") auto
  have v: "holders_view hm' = record_effect network nft (holders_view hm)"
    using process_nft_effect [of network nft hm] Cons.prems p by simp
  show ?case
    using Cons.IH [of hm'] Cons.prems by (simp add: p v)
qed

lemma view_add_commute: "view_add a t (view_add b u m) = view_add b u (view_add a t m)"
  by (rule ext) (auto simp add: view_add_def)

lemma record_effect_commute:
  "record_effect network x \<circ> record_effect network y
   = record_effect network y \<circ> record_effect network x"
  by (rule ext)
    (simp add: record_effect_def view_add_commute split: list.splits prod.splits)

text \<open>
  Claim C8, amended. For every sequence of records on none of which the loop body
  raises an exception, and every permutation of it, both aggregations end without an
  exception and yield equal holder maps: the same addresses, each with the same set of
  token ids.
\<close>

theorem aggregation_order_insensitive:
  assumes "\<forall>nft\<in>set xs. snd (process_nft network nft []) = None"
    and "mset ys = mset xs"
  shows "snd (process_nfts network xs []) = None
         \<and> snd (process_nfts network ys []) = None
         \<and> holders_view (fst (process_nfts network ys []))
             = holders_view (fst (process_nfts network xs []))"
proof -
  have "set ys = set xs" using assms(2) by (rule mset_eq_setD)
  then have ys: "\<forall>nft\<in>set ys. snd (process_nft network nft []) = None"
    using assms(1) by simp
  have "fold (record_effect network) ys = fold (record_effect network) xs"
    using assms(2) by (intro fold_multiset_equiv record_effect_commute)
  then show ?thesis
    using for_each_effect [OF assms(1), of "[]"] for_each_effect [OF ys, of "[]"]
    by (simp add: process_nfts_def)
qed

theorem aggregation_order_insensitive_witness:
  "holders_view (fst (process_nfts ''ethereum'' [other_record, zero_token_record, good_record] []))
     = holders_view (fst (process_nfts ''ethereum'' [good_record, other_record, zero_token_record] []))
   \<and> process_nfts ''ethereum'' [good_record, other_record, zero_token_record] []
       = ([(''0xa'', [JStr ''0x1'']), (''0xb'', [JStr ''0x1a''])], None)
   \<and> process_nfts ''ethereum'' [other_record, zero_token_record, good_record] []
       = ([(''0xb'', [JStr ''0x1a'']), (''0xa'', [JStr ''0x1''])], None)"
proof -
  have a: "\<forall>nft\<in>set [good_record, other_record, zero_token_record].
             snd (process_nft ''ethereum'' nft []) = None"
  proof -
    have "snd (process_nft ''ethereum'' good_record []) = None" by code_simp
    moreover have "snd (process_nft ''ethereum'' other_record []) = None" by code_simp
    moreover have "snd (process_nft ''ethereum'' zero_token_record []) = None" by code_simp
    ultimately show ?thesis by simp
  qed
  have b: "mset [other_record, zero_token_record, good_record]
           = mset [good_record, other_record, zero_token_record]"
    by (simp add: ac_simps)
  have c: "process_nfts ''ethereum'' [good_record, other_record, zero_token_record] []
           = ([(''0xa'', [JStr ''0x1'']), (''0xb'', [JStr ''0x1a''])], None)"
    by code_simp
  have d: "process_nfts ''ethereum'' [other_record, zero_token_record, good_record] []
           = ([(''0xb'', [JStr ''0x1a'']), (''0xa'', [JStr ''0x1''])], None)"
    by code_simp
  show ?thesis
    using aggregation_order_insensitive [OF a b] c d by simp
qed

section \<open>The form of the stored token ids\<close>

text \<open>
  Claim C4 says that every token id stored in a snapshot document is a lower-case,
  minimal-digit hex string with the prefix \<open>0x\<close>, whatever form the record had it
  in. The holder scraper converts integers and strings without the prefix \<open>0x\<close>;
  a string that starts with \<open>0x\<close> is stored as it is (the \<open>else\<close> branch of lines
  126-131), upper case and padding included.
\<close>

theorem padded_hex_token_stored_verbatim:
  "get_collection_holders 1 padded_hex_fetch ''0xC0FFEE'' ''ethereum'' ''Name'' ''Description'' None
   = Some (Inr \<lparr> block_height = 0, chain_id = ''0x1'', claim_contract = ''0x1'',
                  contract_address = ''0xc0ffee'', description = ''Description'',
                  entrypoint = ''claim_from_forwarder'', name = ''Name'',
                  snapshot = [(''0xabc'', [JStr ''0x00FF''])] \<rparr>)
   \<and> \<not> canonical_hex ''0x00FF''"
  by code_simp

lemma hex_digit_chars: "d < 16 \<Longrightarrow> hex_digit d \<in> set ''0123456789abcdef''"
proof -
  assume "d < 16"
  then have "d \<in> set [0..<16]" by simp
  moreover have "\<forall>d\<in>set [0..<16]. hex_digit d \<in> set ''0123456789abcdef''" by code_simp
  ultimately show ?thesis by blast
qed

lemma hex_digit_zero: "d < 16 \<Longrightarrow> hex_digit d = CHR ''0'' \<Longrightarrow> d = 0"
proof -
  assume d: "d < 16" and "hex_digit d = CHR ''0''"
  then have "(of_char (hex_digit d) :: nat) = 48" by simp
  with d show ?thesis by (simp add: of_char_hex_digit split: if_splits)
qed

lemma hex_nat_no_leading_zero: "0 < n \<Longrightarrow> hd (hex_nat n) \<noteq> CHR ''0''"
proof (induction n rule: hex_nat.induct)
  case (1 n)
  show ?case
  proof (cases "n < 16")
    case True
    with 1(2) show ?thesis
      using hex_digit_zero [of n] by (subst hex_nat.simps) auto
  next
    case False
    then have "0 < n div 16" by (simp add: div_greater_zero_iff)
    with False 1(1) have "hd (hex_nat (n div 16)) \<noteq> CHR ''0''" by simp
    with False show ?thesis
      by (subst hex_nat.simps) (simp add: hex_nat_nonempty)
  qed
qed

lemma canonical_hex_hex: "0 \<le> n \<Longrightarrow> canonical_hex (hex n)"
proof -
  assume n: "0 \<le> n"
  have d: "\<forall>c\<in>set (hex_nat (nat n)). c \<in> set ''0123456789abcdef''"
  proof
    fix c assume "c \<in> set (hex_nat (nat n))"
    then obtain d where "d < 16" "c = hex_digit d" using hex_nat_digits by blast
    then show "c \<in> set ''0123456789abcdef''" using hex_digit_chars by simp
  qed
  have z: "hd (hex_nat (nat n)) = CHR ''0'' \<longrightarrow> hex_nat (nat n) = ''0''"
  proof (cases "nat n = 0")
    case True
    have "hex_nat 0 = ''0''" by code_simp
    with True show ?thesis by simp
  next
    case False
    then show ?thesis using hex_nat_no_leading_zero [of "nat n"] by simp
  qed
  show ?thesis
    using n d z by (simp add: canonical_hex_def hex_def startswith_def hex_nat_nonempty)
qed

lemma token_id_hex_canonical:
  assumes "numeric_form token_id" and "token_id_hex token_id = Inr (JStr s)"
  shows "canonical_hex s"
proof (cases token_id)
  case (JInt n)
  with assms show ?thesis by (auto simp add: canonical_hex_hex)
next
  case (JBool b)
  with assms show ?thesis by (auto simp add: canonical_hex_hex)
next
  case (JStr x)
  with assms show ?thesis
    by (auto simp add: canonical_hex_hex split: option.splits if_splits)
qed (use assms in auto)

lemma add_token_tokens:
  assumes "(k, ts') \<in> set (fst (add_token a t hm))" and "t' \<in> set ts'"
  shows "t' = t \<or> (\<exists>ts. (k, ts) \<in> set hm \<and> t' \<in> set ts)"
proof -
  define hm1 where "hm1 = (if a \<in> set (map fst hm) then hm else hm @ [(a, [])])"
  have h1: "\<exists>ts. (k, ts) \<in> set hm \<and> x \<in> set ts" if "(k, ts) \<in> set hm1" "x \<in> set ts" for k ts x
    using that by (auto simp add: hm1_def split: if_splits)
  have e: "fst (add_token a t hm)
           = (if hashable t
              then map (\<lambda>(k, ts). if k = a then (k, if t \<in> set ts then ts else ts @ [t])
                                   else (k, ts)) hm1
              else hm1)"
    by (simp add: add_token_def hm1_def Let_def)
  show ?thesis
  proof (cases "hashable t")
    case False
    with assms h1 show ?thesis unfolding e by auto
  next
    case True
    with assms(1) obtain ts where ts: "(k, ts) \<in> set hm1"
      and "ts' = ts \<or> ts' = ts @ [t]"
      unfolding e by (auto split: if_splits)
    with assms(2) have "t' = t \<or> t' \<in> set ts" by auto
    with ts h1 show ?thesis by blast
  qed
qed

lemma process_nft_cases:
  "fst (process_nft network nft hm) = hm
   \<or> (\<exists>a token_id t. lookup_alias token_aliases nft = Inr token_id
          \<and> token_id_hex token_id = Inr t
          \<and> process_nft network nft hm = add_token a t hm)"
  by (simp add: process_nft_def split: sum.splits json.splits) blast

lemma sourced_add_token:
  assumes "sourced R hm"
    and "\<exists>nft\<in>R. \<exists>token_id. lookup_alias token_aliases nft = Inr token_id
                       \<and> token_id_hex token_id = Inr t"
  shows "sourced R (fst (add_token a t hm))"
  unfolding sourced_def
proof (intro allI impI)
  fix k ts' t'
  assume "(k, ts') \<in> set (fst (add_token a t hm))" and "t' \<in> set ts'"
  then have "t' = t \<or> (\<exists>ts. (k, ts) \<in> set hm \<and> t' \<in> set ts)"
    by (rule add_token_tokens)
  then show "\<exists>nft\<in>R. \<exists>token_id. lookup_alias token_aliases nft = Inr token_id
                       \<and> token_id_hex token_id = Inr t'"
  proof
    assume "t' = t"
    with assms(2) show ?thesis by simp
  next
    assume "\<exists>ts. (k, ts) \<in> set hm \<and> t' \<in> set ts"
    with assms(1) show ?thesis unfolding sourced_def by blast
  qed
qed

lemma sourced_process_nft:
  assumes "sourced R hm" and "nft \<in> R"
  shows "sourced R (fst (process_nft network nft hm))"
  using process_nft_cases [of network nft hm]
proof
  assume "fst (process_nft network nft hm) = hm"
  with assms(1) show ?thesis by simp
next
  assume "\<exists>a token_id t. lookup_alias token_aliases nft = Inr token_id
                 \<and> token_id_hex token_id = Inr t
                 \<and> process_nft network nft hm = add_token a t hm"
  then obtain a token_id t where l: "lookup_alias token_aliases nft = Inr token_id"
    and t: "token_id_hex token_id = Inr t"
    and p: "process_nft network nft hm = add_token a t hm" by blast
  have "\<exists>nft\<in>R. \<exists>token_id. lookup_alias token_aliases nft = Inr token_id
                       \<and> token_id_hex token_id = Inr t"
    using assms(2) l t by blast
  then show ?thesis
    using sourced_add_token [OF assms(1)] by (simp add: p)
qed

lemma sourced_for_each:
  assumes "sourced R hm" and "set items \<subseteq> R"
  shows "sourced R (fst (for_each (process_nft network) items hm))"
  using assms
proof (induction items arbitrary: hm)
  case Nil
  then show ?case by simp
next
  case (Cons nft items)
  have g: "sourced R (fst (process_nft network nft hm))"
    using sourced_process_nft [OF Cons.prems(1)] Cons.prems(2) by simp
  show ?case
  proof (cases "process_nft network nft hm")
    case (Pair hm' e)
    with g have g': "sourced R hm'" by simp
    show ?thesis
      using Cons.IH [OF g'] Cons.prems(2) g' Pair by (cases e) auto
  qed
qed

lemma sourced_read_page:
  assumes "sourced R hm" and "set (page_items result) \<subseteq> R"
  shows "case read_page (process_nft network) result hm of
           Break hm' \<Rightarrow> sourced R hm'
         | Continue hm' k \<Rightarrow> sourced R hm'"
proof -
  have "sourced R (fst (for_each (process_nft network) (page_items result) hm))"
    using sourced_for_each [OF assms] .
  then show ?thesis
    using assms(1)
    by (auto simp add: read_page_def page_items_def
          split: sum.splits bool.splits prod.splits option.splits)
qed

lemma sourced_collect:
  assumes "\<forall>page_count page_key result.
             fetch page_count page_key = Response result \<longrightarrow> set (page_items result) \<subseteq> R"
    and "sourced R hm"
    and "collect fuel fetch (process_nft network) page_count page_key hm = Some hm'"
  shows "sourced R hm'"
  using assms(2,3)
proof (induction fuel arbitrary: page_count page_key hm)
  case 0
  then show ?case by simp
next
  case (Suc fuel)
  show ?case
  proof (cases "fetch page_count page_key")
    case RequestException
    with Suc.prems show ?thesis by simp
  next
    case (Response result)
    have r: "case read_page (process_nft network) result hm of
               Break h \<Rightarrow> sourced R h | Continue h k \<Rightarrow> sourced R h"
      using sourced_read_page [OF Suc.prems(1)] assms(1) Response by blast
    show ?thesis
    proof (cases "read_page (process_nft network) result hm")
      case (Break h)
      with r Suc.prems(2) Response show ?thesis by simp
    next
      case (Continue h k)
      with r have "sourced R h" by simp
      moreover have "collect fuel fetch (process_nft network) (page_count + 1) k h = Some hm'"
        using Suc.prems(2) Response Continue by simp
      ultimately show ?thesis by (rule Suc.IH)
    qed
  qed
qed

lemma snapshot_entries_source:
  "snapshot_entries hm = Inr es \<Longrightarrow> (a, ids) \<in> set es
   \<Longrightarrow> \<exists>ts. (a, ts) \<in> set hm \<and> sorted_token_ids ts = Inr ids"
proof (induction hm arbitrary: es rule: snapshot_entries.induct)
  case 1
  then show ?case by simp
next
  case (2 address token_ids rest)
  from "2.prems"(1) obtain sorted_ids entries
    where s: "sorted_token_ids token_ids = Inr sorted_ids"
      and r: "snapshot_entries rest = Inr entries"
      and es: "es = (address, sorted_ids) # entries"
    by (auto split: sum.splits)
  from "2.prems"(2) es have "(a, ids) = (address, sorted_ids) \<or> (a, ids) \<in> set entries"
    by simp
  then show ?case
  proof
    assume "(a, ids) = (address, sorted_ids)"
    with s show ?thesis by auto
  next
    assume "(a, ids) \<in> set entries"
    then obtain ts where "(a, ts) \<in> set rest" "sorted_token_ids ts = Inr ids"
      using "2.IH" [OF s r] by blast
    then show ?thesis by auto
  qed
qed

lemma int16_keys_length: "int16_keys ts = Inr ks \<Longrightarrow> length ks = length ts"
  by (induction ts arbitrary: ks) (auto split: sum.splits)

lemma int16_keys_strings: "int16_keys ts = Inr ks \<Longrightarrow> t \<in> set ts \<Longrightarrow> \<exists>s. t = JStr s"
proof (induction ts arbitrary: ks)
  case Nil
  then show ?case by simp
next
  case (Cons x ts)
  then show ?case by (cases x) (auto split: sum.splits)
qed

lemma sorted_token_ids_set:
  assumes "sorted_token_ids ts = Inr ids"
  shows "set ids = set ts" and "t \<in> set ids \<Longrightarrow> \<exists>s. t = JStr s"
proof -
  obtain ks where ks: "int16_keys ts = Inr ks"
    and ids: "ids = map snd (sort_key fst (zip ks ts))"
    using assms by (auto simp add: sorted_token_ids_def split: sum.splits)
  have "set ids = snd ` set (zip ks ts)" by (simp add: ids)
  also have "\<dots> = set (map snd (zip ks ts))" by simp
  also have "\<dots> = set ts" using int16_keys_length [OF ks] by simp
  finally show s: "set ids = set ts" .
  show "t \<in> set ids \<Longrightarrow> \<exists>s. t = JStr s"
    using int16_keys_strings [OF ks] s by simp
qed

text \<open>
  Claim C4, amended. Every token id in a snapshot document that
  \<open>get_collection_holders\<close> returns is a string, the conversion (lines 126-131) of
  the token id of a record of a page. When the record supplied the token id as a
  number (an integer that is not negative, or a string without the prefix \<open>0x\<close>
  whose value is not negative), the stored string is lower-case, minimal-digit hex with
  the prefix \<open>0x\<close>, the value 0 as \<open>0x0\<close>. When the record supplied a string with
  the prefix \<open>0x\<close>, the stored string is that string, unchanged.
\<close>

theorem stored_token_id_form:
  assumes "get_collection_holders fuel fetch contract network collection_name descr height
           = Some (Inr doc)"
  shows "\<forall>(address, token_ids)\<in>set (snapshot doc). \<forall>t\<in>set token_ids.
           \<exists>page_count page_key result nft token_id s.
              fetch page_count page_key = Response result
              \<and> nft \<in> set (page_items result)
              \<and> lookup_alias token_aliases nft = Inr token_id
              \<and> token_id_hex token_id = Inr (JStr s)
              \<and> t = JStr s
              \<and> (numeric_form token_id \<longrightarrow> canonical_hex s)
              \<and> (\<forall>x. token_id = JStr x \<longrightarrow> startswith x ''0x'' \<longrightarrow> s = x)"
proof -
  define R where "R = {nft. \<exists>page_count page_key result.
                        fetch page_count page_key = Response result
                        \<and> nft \<in> set (page_items result)}"
  obtain hm where c: "collect fuel fetch (process_nft network) 0 JNull [] = Some hm"
    and d: "snapshot_data hm = Inr (snapshot doc)"
    using assms
    by (auto simp add: get_collection_holders_def split: option.splits sum.splits)
  have p: "\<forall>page_count page_key result.
             fetch page_count page_key = Response result \<longrightarrow> set (page_items result) \<subseteq> R"
    by (auto simp add: R_def)
  have "sourced R []" by (simp add: sourced_def)
  then have g: "sourced R hm"
    using sourced_collect [OF p _ c] by simp
  have e: "snapshot_entries (sort_key fst hm) = Inr (snapshot doc)"
    using d by (simp add: snapshot_data_def)
  have "\<exists>page_count page_key result nft token_id s.
              fetch page_count page_key = Response result
              \<and> nft \<in> set (page_items result)
              \<and> lookup_alias token_aliases nft = Inr token_id
              \<and> token_id_hex token_id = Inr (JStr s)
              \<and> t = JStr s
              \<and> (numeric_form token_id \<longrightarrow> canonical_hex s)
              \<and> (\<forall>x. token_id = JStr x \<longrightarrow> startswith x ''0x'' \<longrightarrow> s = x)"
    if m: "(a, ids) \<in> set (snapshot doc)" and tin: "t \<in> set ids" for a ids t
  proof -
    obtain ts where ts: "(a, ts) \<in> set hm" and so: "sorted_token_ids ts = Inr ids"
      using snapshot_entries_source [OF e m] by auto
    obtain s where s: "t = JStr s" using sorted_token_ids_set(2) [OF so tin] by blast
    have "t \<in> set ts" using sorted_token_ids_set(1) [OF so] tin by simp
    with g ts obtain nft token_id where r: "nft \<in> R"
      and l: "lookup_alias token_aliases nft = Inr token_id"
      and h: "token_id_hex token_id = Inr t"
      unfolding sourced_def by blast
    from r obtain page_count page_key result
      where f: "fetch page_count page_key = Response result"
        and i: "nft \<in> set (page_items result)"
      by (auto simp add: R_def)
    have cn: "numeric_form token_id \<longrightarrow> canonical_hex s"
      using token_id_hex_canonical [of token_id s] h s by simp
    have vb: "\<forall>x. token_id = JStr x \<longrightarrow> startswith x ''0x'' \<longrightarrow> s = x"
      using h s by auto
    show ?thesis
      using f i l h s cn vb by blast
  qed
  then show ?thesis by auto
qed

theorem stored_token_id_form_witness:
  "(\<exists>page_count page_key result nft token_id.
       two_holder_fetch page_count page_key = Response result
       \<and> nft \<in> set (page_items result)
       \<and> lookup_alias token_aliases nft = Inr token_id
       \<and> token_id_hex token_id = Inr (JStr ''0x3''))
   \<and> (\<exists>page_count page_key result nft token_id.
       two_holder_fetch page_count page_key = Response result
       \<and> nft \<in> set (page_items result)
       \<and> lookup_alias token_aliases nft = Inr token_id
       \<and> token_id_hex token_id = Inr (JStr ''0x10''))
   \<and> (\<exists>page_count page_key result nft token_id.
       two_holder_fetch page_count page_key = Response result
       \<and> nft \<in> set (page_items result)
       \<and> lookup_alias token_aliases nft = Inr token_id
       \<and> token_id_hex token_id = Inr (JStr ''0x2''))
   \<and> numeric_form (JInt 3) \<and> token_id_hex (JInt 3) = Inr (JStr ''0x3'')
   \<and> canonical_hex ''0x3''
   \<and> numeric_form (JStr ''16'') \<and> token_id_hex (JStr ''16'') = Inr (JStr ''0x10'')
   \<and> canonical_hex ''0x10''
   \<and> token_id_hex (JStr ''0x2'') = Inr (JStr ''0x2'')"
proof -
  define doc where "doc = \<lparr> block_height = 0, chain_id = ''0x1'', claim_contract = ''0x1'',
                  contract_address = ''0xc0ffee'', description = ''Description'',
                  entrypoint = ''claim_from_forwarder'', name = ''Name'',
                  snapshot = [(''0xa'', [JStr ''0x3'']), (''0xb'', [JStr ''0x2'', JStr ''0x10''])] \<rparr>"
  have r: "get_collection_holders 1 two_holder_fetch ''0xC0FFEE'' ''ethereum'' ''Name''
             ''Description'' None = Some (Inr doc)"
    unfolding doc_def by (rule two_holder_run)
  have s: "snapshot doc = [(''0xa'', [JStr ''0x3'']), (''0xb'', [JStr ''0x2'', JStr ''0x10''])]"
    by (simp add: doc_def)
  have a: "numeric_form (JInt 3) \<and> token_id_hex (JInt 3) = Inr (JStr ''0x3'')
           \<and> canonical_hex ''0x3''" by code_simp
  have b: "numeric_form (JStr ''16'') \<and> token_id_hex (JStr ''16'') = Inr (JStr ''0x10'')
           \<and> canonical_hex ''0x10''" by code_simp
  have c: "token_id_hex (JStr ''0x2'') = Inr (JStr ''0x2'')" by code_simp
  note t = stored_token_id_form [OF r, unfolded s]
  have t1: "\<exists>page_count page_key result nft token_id.
       two_holder_fetch page_count page_key = Response result
       \<and> nft \<in> set (page_items result)
       \<and> lookup_alias token_aliases nft = Inr token_id
       \<and> token_id_hex token_id = Inr (JStr ''0x3'')"
    using t by fastforce
  have t2: "\<exists>page_count page_key result nft token_id.
       two_holder_fetch page_count page_key = Response result
       \<and> nft \<in> set (page_items result)
       \<and> lookup_alias token_aliases nft = Inr token_id
       \<and> token_id_hex token_id = Inr (JStr ''0x10'')"
    using t by fastforce
  have t3: "\<exists>page_count page_key result nft token_id.
       two_holder_fetch page_count page_key = Response result
       \<and> nft \<in> set (page_items result)
       \<and> lookup_alias token_aliases nft = Inr token_id
       \<and> token_id_hex token_id = Inr (JStr ''0x2'')"
    using t by fastforce
  show ?thesis
    using t1 t2 t3 a b c by blast
qed

end
